theory Spec2Isabelle
  imports Complex_Main
begin

section \<open>Strings\<close>

text \<open>
  A Go string is a sequence of bytes; it is modelled as a \<open>string\<close> (a list of
  \<open>char\<close>, one per byte). The functions of package \<open>strings\<close> and \<open>unicode\<close>
  that the code calls are written out for ASCII text, which is what field
  identifiers and dotenv keys are made of: on a byte below 128 the byte index of
  \<open>range s\<close> is the position in the list, \<open>unicode.IsUpper\<close> holds of \<open>A\<close> to \<open>Z\<close>
  and \<open>strings.ToUpper\<close> maps \<open>a\<close> to \<open>z\<close> onto \<open>A\<close> to \<open>Z\<close>. On a string with a
  byte from 128 on the code decodes runes and consults the Unicode tables, which
  the model does not: what is proved of the case conversion is proved of the
  strings that \<open>ascii\<close> holds of.
\<close>

definition ascii :: "string \<Rightarrow> bool" where
  "ascii s = list_all (\<lambda>c. (of_char c :: nat) < 128) s"

fun strings_Index :: "string \<Rightarrow> string \<Rightarrow> int" where
  "strings_Index [] substr = (if substr = [] then 0 else - 1)"
| "strings_Index (c # cs) substr =
     (if take (length substr) (c # cs) = substr then 0
      else (let r = strings_Index cs substr in if r < 0 then - 1 else r + 1))"

definition unicode_IsUpper :: "char \<Rightarrow> bool" where
  "unicode_IsUpper r = (65 \<le> (of_char r :: nat) \<and> (of_char r :: nat) \<le> 90)"

definition unicode_ToUpper :: "char \<Rightarrow> char" where
  "unicode_ToUpper r =
     (if 97 \<le> (of_char r :: nat) \<and> (of_char r :: nat) \<le> 122
      then char_of ((of_char r :: nat) - 32) else r)"

definition strings_ToUpper :: "string \<Rightarrow> string" where
  "strings_ToUpper s = map unicode_ToUpper s"

fun strings_Join :: "string list \<Rightarrow> string \<Rightarrow> string" where
  "strings_Join [] sep = []"
| "strings_Join [p] sep = p"
| "strings_Join (p # q # ps) sep = p @ sep @ strings_Join (q # ps) sep"

text \<open>\<open>strings.Split(s, sep)\<close> for a separator of one byte: the empty string splits
  into one empty piece.\<close>

fun strings_Split :: "string \<Rightarrow> char \<Rightarrow> string list" where
  "strings_Split [] sep = [] # []"
| "strings_Split (c # cs) sep =
     (if c = sep then [] # strings_Split cs sep
      else (case strings_Split cs sep of
              [] \<Rightarrow> [c # []]
            | p # ps \<Rightarrow> (c # p) # ps))"

text \<open>The slice expression \<open>s[lo:hi]\<close>, for \<open>lo \<le> hi \<le> len(s)\<close>.\<close>

definition slice :: "string \<Rightarrow> nat \<Rightarrow> nat \<Rightarrow> string" where
  "slice s lo hi = take (hi - lo) (drop lo s)"

section \<open>The line parser\<close>

text \<open>
  \<^verbatim>\<open>
  func parseLine(line string) (string, string) {
      i := strings.Index(line, "=")
      if i <= 0 { return "", "" }
      return line[:i], line[i+1:]
  }
  \<close>
\<close>

definition parseLine :: "string \<Rightarrow> string \<times> string" where
  "parseLine line =
     (let i = strings_Index line ''='' in
      if i \<le> 0 then ('''', '''')
      else (take (nat i) line, drop (nat (i + 1)) line))"

section \<open>The name deriver\<close>

text \<open>
  \<^verbatim>\<open>
  for i, r := range s {
      if unicode.IsUpper(r) && i != 0 {
          parts = append(parts, s[start:i])
          start = i
      }
  }
  parts = append(parts, s[start:])
  for i, p := range parts { parts[i] = strings.ToUpper(p) }
  return strings.Join(parts, "_")
  \<close>
  \<open>camel_scan s i rs parts start\<close> is the first loop at index \<open>i\<close>, with \<open>rs\<close> the
  characters of \<open>s\<close> still to visit; it returns the final \<open>parts\<close> and \<open>start\<close>.
\<close>

fun camel_scan :: "string \<Rightarrow> nat \<Rightarrow> string \<Rightarrow> string list \<Rightarrow> nat \<Rightarrow> string list \<times> nat" where
  "camel_scan s i [] parts start = (parts, start)"
| "camel_scan s i (r # rs) parts start =
     (if unicode_IsUpper r \<and> i \<noteq> 0
      then camel_scan s (i + 1) rs (parts @ [slice s start i]) i
      else camel_scan s (i + 1) rs parts start)"

definition camel_parts :: "string \<Rightarrow> string list" where
  "camel_parts s =
     (case camel_scan s 0 s [] 0 of (parts, start) \<Rightarrow> parts @ [drop start s])"

definition camelToSnake :: "string \<Rightarrow> string" where
  "camelToSnake s = strings_Join (map strings_ToUpper (camel_parts s)) ''_''"

text \<open>
  The segmentation as the specification words it, for comparison: a new segment
  starts only at a transition into uppercase (an uppercase letter at a non-zero
  index whose predecessor is not uppercase), so an uppercase run stays in one
  segment.
\<close>

fun spec_scan :: "string \<Rightarrow> nat \<Rightarrow> char \<Rightarrow> string \<Rightarrow> string list \<Rightarrow> nat \<Rightarrow> string list \<times> nat" where
  "spec_scan s i prev [] parts start = (parts, start)"
| "spec_scan s i prev (r # rs) parts start =
     (if unicode_IsUpper r \<and> \<not> unicode_IsUpper prev \<and> i \<noteq> 0
      then spec_scan s (i + 1) r rs (parts @ [slice s start i]) i
      else spec_scan s (i + 1) r rs parts start)"

definition spec_camelToSnake :: "string \<Rightarrow> string" where
  "spec_camelToSnake s =
     (case spec_scan s 0 (CHR ''_'') s [] 0 of
        (parts, start) \<Rightarrow> strings_Join (map strings_ToUpper (parts @ [drop start s])) ''_'')"

section \<open>The process environment and the file system\<close>

text \<open>
  The process environment is a map from names to values. \<open>os.Setenv\<close> and
  \<open>os.LookupEnv\<close> follow package \<open>syscall\<close> on Unix: setting fails with \<open>EINVAL\<close>
  when the key is empty or holds \<open>=\<close> or a NUL byte, or the value holds a NUL
  byte; looking up the empty name finds nothing.
\<close>

datatype oserror = ErrNotExist | ErrInvalid | ErrPermission | ErrIO string

type_synonym environ = "string \<rightharpoonup> string"

definition os_Setenv :: "environ \<Rightarrow> string \<Rightarrow> string \<Rightarrow> oserror + environ" where
  "os_Setenv env key val =
     (if key = [] \<or> CHR ''='' \<in> set key \<or> CHR 0x00 \<in> set key \<or> CHR 0x00 \<in> set val
      then Inl ErrInvalid
      else Inr (env(key \<mapsto> val)))"

definition os_LookupEnv :: "environ \<Rightarrow> string \<Rightarrow> string option" where
  "os_LookupEnv env key = (if key = [] then None else env key)"

text \<open>
  A file is what a \<open>bufio.Scanner\<close> with the default line splitter delivers from
  it: the lines, in order, and the error \<open>buf.Err()\<close> reports once \<open>buf.Scan()\<close> has
  returned false (\<open>None\<close> at a clean end of file). The file system gives, for each
  path, the outcome of \<open>os.Open\<close>: an error, or the file.

  When \<open>os.Open\<close> fails it returns a nil \<open>*os.File\<close> with the error. Every method
  of a nil \<open>*os.File\<close> returns \<open>os.ErrInvalid\<close>, so a scanner built on it yields no
  line, and its \<open>Err()\<close> is \<open>os.ErrInvalid\<close>.
\<close>

datatype os_File = File (Lines: "string list") (ReadErr: "oserror option")

type_synonym filesystem = "string \<Rightarrow> oserror + os_File"

definition os_Open :: "filesystem \<Rightarrow> string \<Rightarrow> os_File option \<times> oserror option" where
  "os_Open fs pth = (case fs pth of Inl err \<Rightarrow> (None, Some err) | Inr f \<Rightarrow> (Some f, None))"

definition errors_Is :: "oserror \<Rightarrow> oserror \<Rightarrow> bool" where
  "errors_Is err target = (err = target)"

definition bufio_Scan :: "os_File option \<Rightarrow> string list \<times> oserror option" where
  "bufio_Scan r = (case r of None \<Rightarrow> ([], Some ErrInvalid) | Some f \<Rightarrow> (Lines f, ReadErr f))"

section \<open>The environment loader\<close>

datatype load_error =
    OpeningDotenvFile oserror
  | Setting string string oserror
  | ReadingEnvFile oserror

text \<open>
  The body of the scan loop of \<open>Load\<close>, over the lines still to come:
  \<^verbatim>\<open>
  for buf.Scan() {
      line := buf.Text()
      if line == "" { continue }
      key, val := parseLine(line)
      if err := os.Setenv(key, val); err != nil {
          return fmt.Errorf("setting %s[%s]: %w", key, val, err)
      }
  }
  \<close>
  It returns the environment it leaves behind and the error, if any.
\<close>

fun Load_scan :: "environ \<Rightarrow> string list \<Rightarrow> environ \<times> load_error option" where
  "Load_scan env [] = (env, None)"
| "Load_scan env (line # rest) =
     (if line = '''' then Load_scan env rest
      else (case parseLine line of (key, val) \<Rightarrow>
              (case os_Setenv env key val of
                 Inl err \<Rightarrow> (env, Some (Setting key val err))
               | Inr env' \<Rightarrow> Load_scan env' rest)))"

text \<open>
  \<open>Load\<close> from the deferred close on: the scan loop over the lines the scanner
  delivers, then the check of \<open>buf.Err()\<close>. Closing the file only logs, and is left
  out.
  \<^verbatim>\<open>
  buf := bufio.NewScanner(env)
  for buf.Scan() { ... }
  if err := buf.Err(); err != nil {
      return fmt.Errorf("reading env file: %w", err)
  }
  return nil
  \<close>
\<close>

definition Load_read :: "environ \<Rightarrow> os_File option \<Rightarrow> environ \<times> load_error option" where
  "Load_read env envf =
     (case bufio_Scan envf of (toks, serr) \<Rightarrow>
        (case Load_scan env toks of
           (env', Some e) \<Rightarrow> (env', Some e)
         | (env', None) \<Rightarrow>
             (case serr of
                Some err \<Rightarrow> (env', Some (ReadingEnvFile err))
              | None \<Rightarrow> (env', None))))"

text \<open>
  \<open>Load\<close>: the open and the guard on its error, which returns only for an error
  that is not \<open>fs.ErrNotExist\<close>; in every other case the function goes on to read.
  \<^verbatim>\<open>
  env, err := os.Open(pth)
  if err != nil && !errors.Is(err, fs.ErrNotExist) {
      return fmt.Errorf("opening dotenv file: %w", err)
  }
  \<close>
  The result is the environment the call leaves behind and the error it returns.
\<close>

definition Load :: "filesystem \<Rightarrow> environ \<Rightarrow> string \<Rightarrow> environ \<times> load_error option" where
  "Load fs env pth =
     (case os_Open fs pth of (envf, err) \<Rightarrow>
        (case err of
           Some e \<Rightarrow>
             if \<not> errors_Is e ErrNotExist then (env, Some (OpeningDotenvFile e))
             else Load_read env envf
         | None \<Rightarrow> Load_read env envf))"

section \<open>Types, values and the library's parsers\<close>

text \<open>
  The kinds of package \<open>reflect\<close>, in its order.
\<close>

datatype kind =
    reflect_Invalid | reflect_Bool
  | reflect_Int | reflect_Int8 | reflect_Int16 | reflect_Int32 | reflect_Int64
  | reflect_Uint | reflect_Uint8 | reflect_Uint16 | reflect_Uint32 | reflect_Uint64
  | reflect_Uintptr | reflect_Float32 | reflect_Float64
  | reflect_Complex64 | reflect_Complex128
  | reflect_Array | reflect_Chan | reflect_Func | reflect_Interface | reflect_Map
  | reflect_Pointer | reflect_Slice | reflect_String | reflect_Struct
  | reflect_UnsafePointer

text \<open>
  A type as reflection shows it. \<open>Basic k pkg name\<close> is a type that is neither a
  slice nor a struct: its kind, the path of the package that declares it (empty
  for a predeclared type) and its name; \<open>int64\<close> is \<open>Basic reflect_Int64 [] ''int64''\<close>
  and \<open>time.Duration\<close>, declared as \<open>type Duration int64\<close>, is
  \<open>Basic reflect_Int64 ''time'' ''Duration''\<close>: two types of one kind. \<open>SliceOf t\<close> is
  \<open>[]t\<close>. \<open>StructOf name fields\<close> is a struct type with its fields in declaration
  order; a field has a name, its tags (key and value, in the order written) and
  its type. Fields are exported: reflection writes no other.
\<close>

datatype rtype =
    Basic kind string string
  | SliceOf rtype
  | StructOf string "StructField list"
and StructField =
    StructField (Name: string) (Tag: "(string \<times> string) list") (Type: rtype)

fun Kind :: "rtype \<Rightarrow> kind" where
  "Kind (Basic k pkg name) = k"
| "Kind (SliceOf t) = reflect_Slice"
| "Kind (StructOf name flds) = reflect_Struct"

fun TypeName :: "rtype \<Rightarrow> string" where
  "TypeName (Basic k pkg name) = name"
| "TypeName (SliceOf t) = []"
| "TypeName (StructOf name flds) = name"

fun Elem :: "rtype \<Rightarrow> rtype option" where
  "Elem (SliceOf t) = Some t"
| "Elem t = None"

text \<open>\<open>Type.Bits()\<close> of the sized kinds, \<open>int\<close> and \<open>uint\<close> being 64 bits wide.\<close>

fun Bits :: "kind \<Rightarrow> nat" where
  "Bits reflect_Int8 = 8"
| "Bits reflect_Uint8 = 8"
| "Bits reflect_Int16 = 16"
| "Bits reflect_Uint16 = 16"
| "Bits reflect_Int32 = 32"
| "Bits reflect_Uint32 = 32"
| "Bits reflect_Float32 = 32"
| "Bits k = 64"

definition time_Duration :: rtype where
  "time_Duration = Basic reflect_Int64 ''time'' ''Duration''"

definition string_type :: rtype where
  "string_type = Basic reflect_String [] ''string''"

text \<open>\<open>StructTag.Get(key)\<close>: the value of the first tag with that key, or the
  empty string.\<close>

definition Tag_Get :: "(string \<times> string) list \<Rightarrow> string \<Rightarrow> string" where
  "Tag_Get tag key = (case map_of tag key of Some v \<Rightarrow> v | None \<Rightarrow> [])"

definition tagEnv :: string where
  "tagEnv = ''env''"

definition tagDefault :: string where
  "tagDefault = ''default''"

text \<open>
  The value a field holds. Integers of every signed kind (a duration among them,
  in nanoseconds) are \<open>IntV\<close>, of every unsigned kind \<open>UintV\<close>; \<open>'f\<close> is the type of
  floating-point numbers, which the model leaves open.
\<close>

datatype 'f gvalue =
    BoolV bool
  | IntV int
  | UintV nat
  | FloatV 'f
  | StringV string
  | SliceV "string list"
  | StructV "'f gvalue list"
  | OtherV

text \<open>
  The parsers of packages \<open>time\<close> and \<open>strconv\<close> are not part of the repository: the
  converter takes them as a parameter, each returning the library's error \<open>'e\<close> or
  the parsed value. \<open>ParseInt\<close> and \<open>ParseUint\<close> take the string, the base and the
  bit size, \<open>ParseFloat\<close> the string and the bit size. \<open>Float32\<close> is the conversion
  \<open>float32(x)\<close> of a 64-bit number, which rounds.
\<close>

record ('f, 'e) golib =
  ParseDuration :: "string \<Rightarrow> 'e + int"
  ParseInt :: "string \<Rightarrow> nat \<Rightarrow> nat \<Rightarrow> 'e + int"
  ParseUint :: "string \<Rightarrow> nat \<Rightarrow> nat \<Rightarrow> 'e + nat"
  ParseFloat :: "string \<Rightarrow> nat \<Rightarrow> 'e + 'f"
  ParseBool :: "string \<Rightarrow> 'e + bool"
  Float32 :: "'f \<Rightarrow> 'f"

section \<open>The field converter\<close>

datatype 'e field_error =
    ParsingDuration 'e
  | ParsingInteger 'e
  | ParsingUnsignedInteger 'e
  | ParsingFloat 'e
  | ParsingBool 'e
  | UnsupportedSliceKind kind
  | UnsupportedFieldType string
  | NoValueForField string
  | Panic

text \<open>
  \<open>Value.Set(x)\<close> panics unless the type of \<open>x\<close> is assignable to the type of the
  destination; between the types met here that is identity of the two types.
  \<open>SetInt\<close>, \<open>SetUint\<close> and \<open>SetFloat\<close> store the number converted to the width of
  the kind.
\<close>

definition reflect_Set :: "rtype \<Rightarrow> rtype \<Rightarrow> 'f gvalue \<Rightarrow> 'e field_error + 'f gvalue" where
  "reflect_Set dst src x = (if src = dst then Inr x else Inl Panic)"

definition SetInt :: "kind \<Rightarrow> int \<Rightarrow> 'f gvalue" where
  "SetInt k x =
     (let m = x mod 2 ^ Bits k in
      IntV (if m < 2 ^ (Bits k - 1) then m else m - 2 ^ Bits k))"

definition SetUint :: "kind \<Rightarrow> nat \<Rightarrow> 'f gvalue" where
  "SetUint k x = UintV (nat (int x mod 2 ^ Bits k))"

definition SetFloat :: "('f, 'e) golib \<Rightarrow> kind \<Rightarrow> 'f \<Rightarrow> 'f gvalue" where
  "SetFloat L k x = FloatV (if k = reflect_Float32 then Float32 L x else x)"

text \<open>
  \<open>setFieldValue\<close>: the switch on \<open>fieldType.Kind()\<close>, its cases in the order of the
  source. The first case compares with the kind of \<open>time.Duration\<close>. \<open>fieldVal\<close> is
  the field to write, given by the value it holds; the result is the error
  returned (or the panic raised), or the value the field holds afterwards.
\<close>

definition setFieldValue ::
  "('f, 'e) golib \<Rightarrow> rtype \<Rightarrow> 'f gvalue \<Rightarrow> string \<Rightarrow> 'e field_error + 'f gvalue" where
  "setFieldValue L fieldType fieldVal val =
     (let k = Kind fieldType in
      if k = Kind time_Duration then
        (case ParseDuration L val of
           Inl err \<Rightarrow> Inl (ParsingDuration err)
         | Inr d \<Rightarrow> reflect_Set fieldType time_Duration (IntV d))
      else if k \<in> set [reflect_Int, reflect_Int8, reflect_Int16, reflect_Int32, reflect_Int64] then
        (case ParseInt L val 0 (Bits k) of
           Inl err \<Rightarrow> Inl (ParsingInteger err)
         | Inr n \<Rightarrow> Inr (SetInt k n))
      else if k \<in> set [reflect_Uint, reflect_Uint8, reflect_Uint16, reflect_Uint32, reflect_Uint64] then
        (case ParseUint L val 0 (Bits k) of
           Inl err \<Rightarrow> Inl (ParsingUnsignedInteger err)
         | Inr n \<Rightarrow> Inr (SetUint k n))
      else if k \<in> set [reflect_Float32, reflect_Float64] then
        (case ParseFloat L val 64 of
           Inl err \<Rightarrow> Inl (ParsingFloat err)
         | Inr x \<Rightarrow> Inr (SetFloat L k x))
      else if k = reflect_Bool then
        (case ParseBool L val of
           Inl err \<Rightarrow> Inl (ParsingBool err)
         | Inr b \<Rightarrow> Inr (BoolV b))
      else if k = reflect_String then Inr (StringV val)
      else if k = reflect_Slice then
        (case Elem fieldType of
           None \<Rightarrow> Inl Panic
         | Some e \<Rightarrow>
             if Kind e \<noteq> reflect_String then Inl (UnsupportedSliceKind (Kind e))
             else reflect_Set fieldType (SliceOf string_type) (SliceV (strings_Split val (CHR '',''))))
      else Inl (UnsupportedFieldType (TypeName fieldType)))"

section \<open>The value resolver\<close>

text \<open>
  \<^verbatim>\<open>
  envTag := fieldType.Tag.Get(tagEnv)
  if val, ok := os.LookupEnv(envTag); ok { return val }
  if val, ok := os.LookupEnv(camelToSnake(fieldName)); ok { return val }
  val := fieldType.Tag.Get(tagDefault)
  return val
  \<close>
\<close>

definition getFieldValue :: "environ \<Rightarrow> StructField \<Rightarrow> string \<Rightarrow> string" where
  "getFieldValue env fieldType fieldName =
     (let envTag = Tag_Get (Tag fieldType) tagEnv in
      case os_LookupEnv env envTag of
        Some val \<Rightarrow> val
      | None \<Rightarrow>
          (case os_LookupEnv env (camelToSnake fieldName) of
             Some val \<Rightarrow> val
           | None \<Rightarrow> Tag_Get (Tag fieldType) tagDefault))"

section \<open>The struct walker\<close>

text \<open>
  \<open>parseTo L env flds vals prefix\<close> is the loop of \<open>parseTo(dst, prefix)\<close> over the
  fields of the struct \<open>dst\<close> points to: \<open>flds\<close> are the fields of its type and
  \<open>vals\<close> the values they hold, both in declaration order. It returns the values
  the struct holds when the function returns, and the error if there is one: the
  struct is written in place, so what was assigned before an error stays.
  A struct value always has one value per field of its type; the model answers
  \<open>Panic\<close> where the two lists disagree.
\<close>

fun parseTo ::
  "('f, 'e) golib \<Rightarrow> environ \<Rightarrow> StructField list \<Rightarrow> 'f gvalue list \<Rightarrow> string
     \<Rightarrow> 'f gvalue list \<times> 'e field_error option" where
  "parseTo L env [] vals prefix = (vals, None)"
| "parseTo L env (StructField name tag ty # flds) [] prefix = ([], Some Panic)"
| "parseTo L env (StructField name tag ty # flds) (fieldVal # vals) prefix =
     (let fieldName = prefix @ name in
      if Kind ty = reflect_Struct then
        (case (ty, fieldVal) of
           (StructOf tname sub, StructV subvals) \<Rightarrow>
             (case parseTo L env sub subvals fieldName of
                (subvals', Some err) \<Rightarrow> (StructV subvals' # vals, Some err)
              | (subvals', None) \<Rightarrow>
                  (case parseTo L env flds vals prefix of
                     (vals', r) \<Rightarrow> (StructV subvals' # vals', r)))
         | _ \<Rightarrow> (fieldVal # vals, Some Panic))
      else
        (let val = getFieldValue env (StructField name tag ty) fieldName in
         if val = [] \<and> prefix \<noteq> [] then (fieldVal # vals, Some (NoValueForField name))
         else
           (case setFieldValue L ty fieldVal val of
              Inl err \<Rightarrow> (fieldVal # vals, Some err)
            | Inr v \<Rightarrow>
                (case parseTo L env flds vals prefix of
                   (vals', r) \<Rightarrow> (v # vals', r)))))"

text \<open>
  An instance of the library's parsers that evaluates, for running the model on
  concrete records. It is a restriction of the library: it accepts decimal
  numerals without leading zeros (as floats, those below \<open>2 ^ 24\<close>, which \<open>float32\<close>
  and \<open>float64\<close> hold exactly, so that \<open>float32(x)\<close> leaves them as they are), the
  booleans of \<open>strconv.ParseBool\<close> and durations of one such numeral and one unit,
  with the results of the library, and rejects all other strings, the empty one
  among them. (The library accepts more:
  numerals with a base prefix or underscores, floats with a fraction or an
  exponent, durations with a sign, a fraction or several units.) The theorems
  below are about every library; this one serves the examples.
\<close>

datatype liberror = ErrSyntax | ErrRange | InvalidDuration | MissingUnit | UnknownUnit

fun decimal :: "string \<Rightarrow> nat \<Rightarrow> nat option" where
  "decimal [] acc = Some acc"
| "decimal (c # cs) acc =
     (if 48 \<le> (of_char c :: nat) \<and> (of_char c :: nat) \<le> 57
      then decimal cs (10 * acc + ((of_char c :: nat) - 48)) else None)"

definition numeral_of :: "string \<Rightarrow> nat option" where
  "numeral_of s =
     (case s of
        [] \<Rightarrow> None
      | c # cs \<Rightarrow> if c = CHR ''0'' \<and> cs \<noteq> [] then None else decimal s 0)"

definition dec_ParseUint :: "string \<Rightarrow> nat \<Rightarrow> nat \<Rightarrow> liberror + nat" where
  "dec_ParseUint s base bitSize =
     (case numeral_of s of
        None \<Rightarrow> Inl ErrSyntax
      | Some n \<Rightarrow> if int n < 2 ^ bitSize then Inr n else Inl ErrRange)"

definition dec_ParseInt :: "string \<Rightarrow> nat \<Rightarrow> nat \<Rightarrow> liberror + int" where
  "dec_ParseInt s base bitSize =
     (case s of
        [] \<Rightarrow> Inl ErrSyntax
      | c # cs \<Rightarrow>
          (let neg = (c = CHR ''-'');
               body = (if c = CHR ''-'' \<or> c = CHR ''+'' then cs else s)
           in (case numeral_of body of
                 None \<Rightarrow> Inl ErrSyntax
               | Some n \<Rightarrow>
                   if neg then (if int n \<le> 2 ^ (bitSize - 1) then Inr (- int n) else Inl ErrRange)
                   else (if int n < 2 ^ (bitSize - 1) then Inr (int n) else Inl ErrRange))))"

definition dec_ParseBool :: "string \<Rightarrow> liberror + bool" where
  "dec_ParseBool s =
     (if s \<in> set [''1'', ''t'', ''T'', ''true'', ''TRUE'', ''True''] then Inr True
      else if s \<in> set [''0'', ''f'', ''F'', ''false'', ''FALSE'', ''False''] then Inr False
      else Inl ErrSyntax)"

definition dec_ParseFloat :: "string \<Rightarrow> nat \<Rightarrow> liberror + real" where
  "dec_ParseFloat s bitSize =
     (case numeral_of s of
        None \<Rightarrow> Inl ErrSyntax
      | Some n \<Rightarrow> if int n < 2 ^ 24 then Inr (real n) else Inl ErrSyntax)"

definition unitMap :: "(string \<times> int) list" where
  "unitMap = [(''ns'', 1), (''us'', 1000), (''ms'', 1000000), (''s'', 1000000000),
              (''m'', 60000000000), (''h'', 3600000000000)]"

definition dec_ParseDuration :: "string \<Rightarrow> liberror + int" where
  "dec_ParseDuration s =
     (if s = ''0'' then Inr 0
      else if s = [] then Inl InvalidDuration
      else (let ds = takeWhile (\<lambda>c. 48 \<le> (of_char c :: nat) \<and> (of_char c :: nat) \<le> 57) s;
                u = drop (length ds) s
            in if ds = [] then Inl InvalidDuration
               else if u = [] then Inl MissingUnit
               else (case (numeral_of ds, map_of unitMap u) of
                       (Some v, Some unit) \<Rightarrow>
                         if int v * unit < 2 ^ 63 then Inr (int v * unit) else Inl InvalidDuration
                     | (_, None) \<Rightarrow> Inl UnknownUnit
                     | (None, _) \<Rightarrow> Inl InvalidDuration)))"

definition declib :: "(real, liberror) golib" where
  "declib = \<lparr>ParseDuration = dec_ParseDuration, ParseInt = dec_ParseInt,
             ParseUint = dec_ParseUint, ParseFloat = dec_ParseFloat,
             ParseBool = dec_ParseBool, Float32 = (\<lambda>x. x)\<rparr>"

section \<open>Records and files of the test suite\<close>

text \<open>
  The record of \<open>TestParseTo\<close>, with its zero value:
  \<^verbatim>\<open>
  type config struct {
      Home    string `env:"HOME"`
      Default string `default:"default"`
      Empty   int
      Nested  struct{ Value string }
  }
  \<close>
\<close>

definition config :: "StructField list" where
  "config =
     [StructField ''Home'' [(''env'', ''HOME'')] string_type,
      StructField ''Default'' [(''default'', ''default'')] string_type,
      StructField ''Empty'' [] (Basic reflect_Int [] ''int''),
      StructField ''Nested'' [] (StructOf [] [StructField ''Value'' [] string_type])]"

definition config_zero :: "real gvalue list" where
  "config_zero = [StringV [], StringV [], IntV 0, StructV [StringV []]]"

text \<open>A file system with one dotenv file, of the given lines, at \<open>.env\<close>, and nothing
  else.\<close>

definition dotenv :: "string list \<Rightarrow> filesystem" where
  "dotenv ls pth = (if pth = ''.env'' then Inr (File ls None) else Inl ErrNotExist)"


section \<open>Lemmas on strings\<close>

lemma strings_Index_absent: "c \<notin> set s \<Longrightarrow> strings_Index s [c] = - 1"
  by (induction s) auto

lemma strings_Index_first: "c \<notin> set k \<Longrightarrow> strings_Index (k @ c # v) [c] = int (length k)"
  by (induction k) (auto simp: Let_def)

lemma parseLine_malformed:
  "CHR ''='' \<notin> set line \<or> (line \<noteq> [] \<and> hd line = CHR ''='') \<Longrightarrow> parseLine line = ([], [])"
  by (cases line) (auto simp: parseLine_def strings_Index_absent)

lemma ToUpper_upper: "unicode_IsUpper r \<Longrightarrow> unicode_ToUpper r = r"
  by (simp add: unicode_IsUpper_def unicode_ToUpper_def)

lemma strings_Join_snoc:
  "strings_Join (ps @ [p]) sep = concat (map (\<lambda>q. q @ sep) ps) @ p"
  by (induction ps sep rule: strings_Join.induct) auto

lemma slice_all: "start \<le> length s \<Longrightarrow> slice s start (length s) = drop start s"
  by (simp add: slice_def)

lemma slice_one: "slice (p @ r # rs) (length p) (Suc (length p)) = [r]"
  by (simp add: slice_def)

lemma slice_snoc:
  "start \<le> length p \<Longrightarrow>
   slice (p @ r # rs) start (Suc (length p)) = slice (p @ r # rs) start (length p) @ [r]"
  by (simp add: slice_def Suc_diff_le take_Suc_conv_app_nth nth_append)

text \<open>
  The invariant of the scan: what the parts collected so far, the open segment
  and the characters still to come add up to. Each uppercase character still to
  come closes the open segment.
\<close>

lemma camel_scan_inv:
  "camel_scan s i rs parts start = (parts', start') \<Longrightarrow> s = p @ rs \<Longrightarrow> i = length p \<Longrightarrow>
   start \<le> i \<Longrightarrow> 0 < i \<Longrightarrow>
   concat (map (\<lambda>q. strings_ToUpper q @ ''_'') parts') @ strings_ToUpper (drop start' s) =
   concat (map (\<lambda>q. strings_ToUpper q @ ''_'') parts) @ strings_ToUpper (slice s start i) @
   concat (map (\<lambda>r. if unicode_IsUpper r then [CHR ''_'', r] else [unicode_ToUpper r]) rs)"
proof (induction rs arbitrary: p i parts start)
  case Nil
  then show ?case by (simp add: slice_all)
next
  case (Cons r rs)
  have s: "s = (p @ [r]) @ rs" using Cons.prems by simp
  show ?case
  proof (cases "unicode_IsUpper r")
    case True
    with Cons.prems have "camel_scan s (Suc i) rs (parts @ [slice s start i]) i = (parts', start')"
      by simp
    from Cons.IH [OF this s] Cons.prems True show ?thesis
      by (simp add: slice_one ToUpper_upper strings_ToUpper_def)
  next
    case False
    with Cons.prems have "camel_scan s (Suc i) rs parts start = (parts', start')"
      by simp
    from Cons.IH [OF this s] Cons.prems False show ?thesis
      by (simp add: slice_snoc strings_ToUpper_def)
  qed
qed

section \<open>Lemmas on the loader\<close>

lemma os_Setenv_empty_key: "os_Setenv env [] val = Inl ErrInvalid"
  by (simp add: os_Setenv_def)

lemma Load_scan_env:
  "Load_scan Map.empty ls = (m, r) \<Longrightarrow> Load_scan env ls = (env ++ m, r)"
proof (induction ls arbitrary: env m r)
  case Nil
  then show ?case by auto
next
  case (Cons line rest)
  show ?case
  proof (cases "line = []")
    case True
    with Cons.prems have "Load_scan Map.empty rest = (m, r)" by simp
    from Cons.IH [OF this] True show ?thesis by simp
  next
    case False
    obtain key val where kv: "parseLine line = (key, val)" by (cases "parseLine line") auto
    show ?thesis
    proof (cases "key = [] \<or> CHR ''='' \<in> set key \<or> CHR 0x00 \<in> set key \<or> CHR 0x00 \<in> set val")
      case True
      with False kv Cons.prems show ?thesis by (auto simp: os_Setenv_def)
    next
      case ok: False
      obtain m' r' where rest: "Load_scan Map.empty rest = (m', r')"
        by (cases "Load_scan Map.empty rest") auto
      have a: "Load_scan [key \<mapsto> val] rest = ([key \<mapsto> val] ++ m', r')"
        by (rule Cons.IH [OF rest])
      have b: "Load_scan (env(key \<mapsto> val)) rest = (env(key \<mapsto> val) ++ m', r')"
        by (rule Cons.IH [OF rest])
      have "Load_scan Map.empty (line # rest) = Load_scan [key \<mapsto> val] rest"
        using False kv ok by (simp add: os_Setenv_def)
      with a Cons.prems have m: "m = [key \<mapsto> val] ++ m'" and r: "r = r'" by simp_all
      have c: "env(key \<mapsto> val) ++ m' = env ++ m"
        unfolding m by (rule ext) (simp add: map_add_def split: option.splits)
      have "Load_scan env (line # rest) = Load_scan (env(key \<mapsto> val)) rest"
        using False kv ok by (simp add: os_Setenv_def)
      also have "\<dots> = (env ++ m, r)"
        unfolding b c r ..
      finally show ?thesis .
    qed
  qed
qed

lemma Load_scan_twice:
  "Load_scan (fst (Load_scan env ls)) ls = Load_scan env ls"
proof -
  obtain m r where e: "Load_scan Map.empty ls = (m, r)"
    by (cases "Load_scan Map.empty ls") auto
  have "Load_scan env ls = (env ++ m, r)"
    by (rule Load_scan_env [OF e])
  moreover have "Load_scan (env ++ m) ls = ((env ++ m) ++ m, r)"
    by (rule Load_scan_env [OF e])
  moreover have "(env ++ m) ++ m = env ++ m"
    by (rule ext) (simp add: map_add_def split: option.splits)
  ultimately show ?thesis by simp
qed

lemma Load_unfold:
  "Load fs env pth =
     (case fs pth of
        Inl e \<Rightarrow> if e = ErrNotExist then (env, Some (ReadingEnvFile ErrInvalid))
                 else (env, Some (OpeningDotenvFile e))
      | Inr f \<Rightarrow>
          (case Load_scan env (Lines f) of
             (env', Some e) \<Rightarrow> (env', Some e)
           | (env', None) \<Rightarrow>
               (case ReadErr f of Some e \<Rightarrow> (env', Some (ReadingEnvFile e)) | None \<Rightarrow> (env', None))))"
  by (simp add: Load_def Load_read_def os_Open_def errors_Is_def bufio_Scan_def split: sum.splits)

lemma fst_Load:
  "fst (Load fs env pth) = (case fs pth of Inl e \<Rightarrow> env | Inr f \<Rightarrow> fst (Load_scan env (Lines f)))"
  by (simp add: Load_unfold split: sum.splits prod.splits option.splits)

lemma Load_open_error:
  "fs pth = Inl e \<Longrightarrow> e \<noteq> ErrNotExist \<Longrightarrow> Load fs env pth = (env, Some (OpeningDotenvFile e))"
  by (simp add: Load_unfold)

lemma Load_scan_append:
  "Load_scan env pre = (env1, None) \<Longrightarrow> Load_scan env (pre @ rest) = Load_scan env1 rest"
proof (induction pre arbitrary: env)
  case Nil
  then show ?case by simp
next
  case (Cons line pre)
  then show ?case
    by (auto split: if_splits prod.splits sum.splits)
qed

lemma Load_scan_changes:
  "fst (Load_scan env ls) k \<noteq> env k \<Longrightarrow>
   \<exists>l \<in> set ls. l \<noteq> [] \<and> fst (parseLine l) = k \<and> k \<noteq> []"
proof (induction ls arbitrary: env)
  case Nil
  then show ?case by simp
next
  case (Cons line rest)
  show ?case
  proof (cases "line = []")
    case True
    with Cons show ?thesis by auto
  next
    case False
    obtain key val where kv: "parseLine line = (key, val)" by (cases "parseLine line") auto
    show ?thesis
    proof (cases "os_Setenv env key val")
      case (Inl e)
      with False kv Cons.prems show ?thesis by simp
    next
      case (Inr env')
      then have env': "env' = env(key \<mapsto> val)" and key: "key \<noteq> []"
        by (auto simp: os_Setenv_def split: if_splits)
      from False kv Inr Cons.prems have ch: "fst (Load_scan env' rest) k \<noteq> env k" by simp
      show ?thesis
      proof (cases "k = key")
        case True
        with False kv key show ?thesis by auto
      next
        case neq: False
        with ch env' have "fst (Load_scan env' rest) k \<noteq> env' k" by simp
        from Cons.IH [OF this] show ?thesis by auto
      qed
    qed
  qed
qed

section \<open>Lemmas on the walker and the converter\<close>

lemma parseTo_length:
  "length vals = length flds \<Longrightarrow> length (fst (parseTo L env flds vals prefix)) = length vals"
proof (induction L env flds vals prefix rule: parseTo.induct)
  case (1 L env vals prefix)
  then show ?case by simp
next
  case (2 L env name tag ty flds prefix)
  then show ?case by simp
next
  case (3 L env name tag ty flds fieldVal vals prefix)
  then show ?case
    by (auto simp: Let_def split: rtype.splits gvalue.splits prod.splits option.splits sum.splits)
qed

lemma parseTo_append:
  "length vpre = length pre \<Longrightarrow> parseTo L env pre vpre prefix = (vpre', None) \<Longrightarrow>
   parseTo L env (pre @ rest) (vpre @ vrest) prefix =
     (vpre' @ fst (parseTo L env rest vrest prefix), snd (parseTo L env rest vrest prefix))"
proof (induction L env pre vpre prefix arbitrary: vpre' rule: parseTo.induct)
  case (1 L env vals prefix)
  then show ?case by simp
next
  case (2 L env name tag ty flds prefix)
  then show ?case by simp
next
  case (3 L env name tag ty flds fieldVal vals prefix)
  then show ?case
    by (auto simp: Let_def split: rtype.splits gvalue.splits prod.splits option.splits sum.splits if_splits)
qed


lemma parseTo_leaf:
  "Kind (Type f) \<noteq> reflect_Struct \<Longrightarrow>
   parseTo L env (f # flds) (v # vals) prefix =
     (let val = getFieldValue env f (prefix @ Name f) in
      if val = [] \<and> prefix \<noteq> [] then (v # vals, Some (NoValueForField (Name f)))
      else (case setFieldValue L (Type f) v val of
              Inl err \<Rightarrow> (v # vals, Some err)
            | Inr v' \<Rightarrow> (v' # fst (parseTo L env flds vals prefix),
                         snd (parseTo L env flds vals prefix))))"
  by (cases f) (simp add: Let_def split: sum.splits prod.splits)

lemma parseTo_struct:
  "parseTo L env (StructField name tag (StructOf tname sub) # flds) (StructV subvals # vals) prefix =
     (case parseTo L env sub subvals (prefix @ name) of
        (subvals', Some err) \<Rightarrow> (StructV subvals' # vals, Some err)
      | (subvals', None) \<Rightarrow>
          (StructV subvals' # fst (parseTo L env flds vals prefix),
           snd (parseTo L env flds vals prefix)))"
  by (simp add: Let_def split: prod.splits option.splits)

lemma getFieldValue_absent:
  "os_LookupEnv env (Tag_Get (Tag f) tagEnv) = None \<Longrightarrow>
   os_LookupEnv env (camelToSnake fieldName) = None \<Longrightarrow>
   map_of (Tag f) tagDefault = None \<Longrightarrow> getFieldValue env f fieldName = []"
  by (simp add: getFieldValue_def Tag_Get_def)

lemma setFieldValue_narrow_int:
  "Kind t \<in> {reflect_Int, reflect_Int8, reflect_Int16, reflect_Int32} \<Longrightarrow>
   setFieldValue L t v val =
     (case ParseInt L val 0 (Bits (Kind t)) of
        Inl err \<Rightarrow> Inl (ParsingInteger err)
      | Inr n \<Rightarrow> Inr (SetInt (Kind t) n))"
  by (auto simp: setFieldValue_def time_Duration_def Let_def)

lemma setFieldValue_string: "Kind t = reflect_String \<Longrightarrow> setFieldValue L t v val = Inr (StringV val)"
  by (simp add: setFieldValue_def time_Duration_def)

text \<open>
  At the top level the empty value is not checked: whatever the converter makes
  of the empty string is the outcome for the field.
\<close>

lemma parseTo_top_level_empty:
  "Kind (Type f) \<noteq> reflect_Struct \<Longrightarrow> getFieldValue env f (Name f) = [] \<Longrightarrow>
   parseTo L env (f # flds) (v # vals) [] =
     (case setFieldValue L (Type f) v [] of
        Inl err \<Rightarrow> (v # vals, Some err)
      | Inr v' \<Rightarrow> (v' # fst (parseTo L env flds vals []), snd (parseTo L env flds vals [])))"
  by (simp add: parseTo_leaf)

section \<open>The claims\<close>

text \<open>
  C1. For a field of a signed integer type of any width, \<open>int64\<close> included, the
  converter should parse the string with \<open>strconv.ParseInt\<close> in base 0 and report
  a failure as a "parsing integer" error, never treating the field as a duration.
  The narrower kinds do so (\<open>setFieldValue_narrow_int\<close>). A field of kind
  \<open>reflect.Int64\<close> does not: the first case of the switch compares kinds, and the
  kind of \<open>time.Duration\<close> is \<open>reflect.Int64\<close>, so every such field is parsed as a
  duration. For a type other than \<open>time.Duration\<close> itself (a plain \<open>int64\<close>) a
  string that is no duration gives a "parsing duration" error, and a string that
  is one makes \<open>Value.Set\<close> panic; \<open>ParseInt\<close> is never called.
\<close>

theorem setFieldValue_int64_duration:
  "Kind t = reflect_Int64 \<Longrightarrow> t \<noteq> time_Duration \<Longrightarrow>
   setFieldValue L t v val =
     (case ParseDuration L val of
        Inl err \<Rightarrow> Inl (ParsingDuration err)
      | Inr d \<Rightarrow> Inl Panic)"
  by (simp add: setFieldValue_def time_Duration_def reflect_Set_def split: sum.splits)

theorem setFieldValue_int64_duration_witness:
  "setFieldValue declib (Basic reflect_Int64 [] ''int64'') (IntV 0) ''123'' =
     Inl (ParsingDuration MissingUnit)
   \<and> setFieldValue declib (Basic reflect_Int64 [] ''int64'') (IntV 0) ''5s'' = Inl Panic"
proof -
  have a: "ParseDuration declib ''123'' = Inl MissingUnit" by code_simp
  have b: "ParseDuration declib ''5s'' = Inr 5000000000" by code_simp
  show ?thesis
    using
      setFieldValue_int64_duration [where t = "Basic reflect_Int64 [] ''int64''" and L = declib
        and v = "IntV 0" and val = "''123''"]
      setFieldValue_int64_duration [where t = "Basic reflect_Int64 [] ''int64''" and L = declib
        and v = "IntV 0" and val = "''5s''"]
    by (simp add: a b time_Duration_def)
qed

text \<open>
  C2. For a path that does not exist \<open>Load\<close> should return no error and load
  nothing. The guard lets the "not exist" error of \<open>os.Open\<close> pass, but the function
  goes on with the nil file: the scan reads nothing, \<open>buf.Err()\<close> is
  \<open>os.ErrInvalid\<close>, and \<open>Load\<close> returns it wrapped as "reading env file". The
  environment is left as it was.
\<close>

theorem Load_missing_file:
  "fs pth = Inl ErrNotExist \<Longrightarrow> Load fs env pth = (env, Some (ReadingEnvFile ErrInvalid))"
  by (simp add: Load_unfold)

theorem Load_missing_file_witness:
  "Load (dotenv [''A=1'']) Map.empty ''missing.env'' = (Map.empty, Some (ReadingEnvFile ErrInvalid))"
  using Load_missing_file [of "dotenv [''A=1'']" "''missing.env''" Map.empty]
  by (simp add: dotenv_def)

text \<open>
  C3, as stated: a malformed line (no \<open>=\<close>, or \<open>=\<close> first) is ignored and causes no
  error. It is not so: \<open>Load\<close> passes the empty key of such a line to \<open>os.Setenv\<close>,
  which fails, and \<open>Load\<close> returns the error "setting []"; the lines after it are
  not read. Here the second line is malformed: \<open>A\<close> is set, \<open>B\<close> is not, and the
  load fails.
\<close>

theorem Load_malformed_line_counterexample:
  "Load (dotenv [''A=1'', ''=bad'', ''B=2'']) Map.empty ''.env'' =
     ([''A'' \<mapsto> ''1''], Some (Setting [] [] ErrInvalid))"
  by (simp add: Load_def Load_read_def os_Open_def bufio_Scan_def parseLine_def os_Setenv_def errors_Is_def
      dotenv_def)

text \<open>
  C3, amended: a malformed line sets no variable and stops the load. If the lines
  before it were loaded without error, leaving the environment \<open>env1\<close>, then \<open>Load\<close>
  returns \<open>env1\<close> with the error of \<open>os.Setenv\<close> on the empty key; and a variable of
  \<open>env1\<close> differs from the one before the load only if some non-empty line parsed
  to that, non-empty, key.
\<close>

theorem Load_malformed_line:
  assumes "fs pth = Inr (File (pre @ line # post) rerr)"
    and "Load_scan env pre = (env1, None)"
    and "line \<noteq> []"
    and "CHR ''='' \<notin> set line \<or> hd line = CHR ''=''"
  shows "Load fs env pth = (env1, Some (Setting [] [] ErrInvalid)) \<and>
         (\<forall>k. env1 k \<noteq> env k \<longrightarrow> (\<exists>l \<in> set pre. l \<noteq> [] \<and> fst (parseLine l) = k \<and> k \<noteq> []))"
proof
  from assms(3,4) have "parseLine line = ([], [])"
    by (auto intro: parseLine_malformed)
  with assms(3) have "Load_scan env1 (line # post) = (env1, Some (Setting [] [] ErrInvalid))"
    by (simp add: os_Setenv_empty_key)
  with assms(1,2) show "Load fs env pth = (env1, Some (Setting [] [] ErrInvalid))"
    by (simp add: Load_unfold Load_scan_append)
next
  show "\<forall>k. env1 k \<noteq> env k \<longrightarrow> (\<exists>l \<in> set pre. l \<noteq> [] \<and> fst (parseLine l) = k \<and> k \<noteq> [])"
    using Load_scan_changes [of env pre] assms(2) by auto
qed

theorem Load_malformed_line_witness:
  "Load (dotenv [''A=1'', [], ''B=x=y'', ''novalue'', ''C=3'']) Map.empty ''.env'' =
     ([''A'' \<mapsto> ''1'', ''B'' \<mapsto> ''x=y''], Some (Setting [] [] ErrInvalid))"
proof -
  have pre: "Load_scan Map.empty [''A=1'', [], ''B=x=y''] = ([''A'' \<mapsto> ''1'', ''B'' \<mapsto> ''x=y''], None)"
    by (simp add: parseLine_def os_Setenv_def)
  have fs: "dotenv [''A=1'', [], ''B=x=y'', ''novalue'', ''C=3''] ''.env'' =
            Inr (File ([''A=1'', [], ''B=x=y''] @ ''novalue'' # [''C=3'']) None)"
    by (simp add: dotenv_def)
  from Load_malformed_line [where fs = "dotenv [''A=1'', [], ''B=x=y'', ''novalue'', ''C=3'']"
      and pth = "''.env''" and pre = "[''A=1'', [], ''B=x=y'']" and line = "''novalue''"
      and post = "[''C=3'']", OF fs pre]
  show ?thesis by simp
qed

text \<open>
  C4. The resolver returns the value of the variable named by the \<open>env\<close> tag when
  the environment has it; else the value of the variable named by the derived
  name when the environment has that; else the value of the \<open>default\<close> tag, which
  is empty when there is none. A variable that is set to the empty string is
  found, and its empty value is the result. (No variable has the empty name: a
  field without \<open>env\<close> tag goes to the second tier.)
\<close>

theorem getFieldValue_priority:
  "(Tag_Get (Tag f) tagEnv \<noteq> [] \<and> env (Tag_Get (Tag f) tagEnv) = Some v
      \<longrightarrow> getFieldValue env f fieldName = v) \<and>
   ((Tag_Get (Tag f) tagEnv = [] \<or> env (Tag_Get (Tag f) tagEnv) = None) \<and>
    camelToSnake fieldName \<noteq> [] \<and> env (camelToSnake fieldName) = Some v
      \<longrightarrow> getFieldValue env f fieldName = v) \<and>
   ((Tag_Get (Tag f) tagEnv = [] \<or> env (Tag_Get (Tag f) tagEnv) = None) \<and>
    (camelToSnake fieldName = [] \<or> env (camelToSnake fieldName) = None)
      \<longrightarrow> getFieldValue env f fieldName = Tag_Get (Tag f) tagDefault) \<and>
   (map_of (Tag f) tagDefault = None \<longrightarrow> Tag_Get (Tag f) tagDefault = [])"
  by (auto simp: getFieldValue_def os_LookupEnv_def Tag_Get_def Let_def split: option.splits)

theorem getFieldValue_priority_witness:
  "getFieldValue [''FOO'' \<mapsto> ''1'', ''BAR'' \<mapsto> ''2''] (StructField ''Bar'' [(''env'', ''FOO'')] string_type) ''Bar'' = ''1''
   \<and> getFieldValue [''FOO'' \<mapsto> [], ''BAR'' \<mapsto> ''2''] (StructField ''Bar'' [(''env'', ''FOO''), (''default'', ''x'')] string_type) ''Bar'' = []
   \<and> getFieldValue [''BAR'' \<mapsto> ''2''] (StructField ''Bar'' [(''env'', ''FOO''), (''default'', ''x'')] string_type) ''Bar'' = ''2''
   \<and> getFieldValue [''BAR'' \<mapsto> []] (StructField ''Bar'' [(''default'', ''x'')] string_type) ''Bar'' = []
   \<and> getFieldValue Map.empty (StructField ''Bar'' [(''env'', ''FOO''), (''default'', ''x'')] string_type) ''Bar'' = ''x''
   \<and> getFieldValue Map.empty (StructField ''Bar'' [(''env'', ''FOO'')] string_type) ''Bar'' = []"
proof -
  have bar: "camelToSnake ''Bar'' = ''BAR''"
    by code_simp
  show ?thesis
    using
      getFieldValue_priority [where env = "[''FOO'' \<mapsto> ''1'', ''BAR'' \<mapsto> ''2'']" and v = "''1''"
        and f = "StructField ''Bar'' [(''env'', ''FOO'')] string_type" and fieldName = "''Bar''"]
      getFieldValue_priority [where env = "[''FOO'' \<mapsto> [], ''BAR'' \<mapsto> ''2'']" and v = "[]"
        and f = "StructField ''Bar'' [(''env'', ''FOO''), (''default'', ''x'')] string_type"
        and fieldName = "''Bar''"]
      getFieldValue_priority [where env = "[''BAR'' \<mapsto> ''2'']" and v = "''2''"
        and f = "StructField ''Bar'' [(''env'', ''FOO''), (''default'', ''x'')] string_type"
        and fieldName = "''Bar''"]
      getFieldValue_priority [where env = "[''BAR'' \<mapsto> []]" and v = "[]"
        and f = "StructField ''Bar'' [(''default'', ''x'')] string_type"
        and fieldName = "''Bar''"]
      getFieldValue_priority [where env = "Map.empty" and v = "[]"
        and f = "StructField ''Bar'' [(''env'', ''FOO''), (''default'', ''x'')] string_type"
        and fieldName = "''Bar''"]
      getFieldValue_priority [where env = "Map.empty" and v = "[]"
        and f = "StructField ''Bar'' [(''env'', ''FOO'')] string_type"
        and fieldName = "''Bar''"]
    by (simp add: bar Tag_Get_def tagEnv_def tagDefault_def)
qed

text \<open>
  C5, as stated: a new segment starts only at a transition into uppercase, so a
  run of uppercase letters such as \<open>DB\<close> in \<open>DBPort\<close> stays in one segment. It is not
  so: the scan looks at one character at a time and starts a segment at every
  uppercase letter after the first character, whatever precedes it. \<open>DBPort\<close> is
  cut into \<open>D\<close>, \<open>B\<close> and \<open>Port\<close>, where the segmentation by transitions leaves it
  whole.
\<close>

theorem camelToSnake_DBPort_counterexample:
  "ascii ''DBPort'' \<and> camel_parts ''DBPort'' = [''D'', ''B'', ''Port'']
   \<and> camelToSnake ''DBPort'' = ''D_B_PORT'' \<and> spec_camelToSnake ''DBPort'' = ''DBPORT''"
  by code_simp

text \<open>
  C5, amended: in an identifier of ASCII characters a new segment starts at every
  uppercase letter at a non-zero index. The result is the input in upper case
  with an underscore before each such letter, so every letter of an uppercase
  run after the first character is a segment of its own.
\<close>

theorem camelToSnake_every_upper:
  "camelToSnake [] = [] \<and>
   (ascii (c # cs) \<longrightarrow>
    camelToSnake (c # cs) =
      unicode_ToUpper c #
      concat (map (\<lambda>r. if unicode_IsUpper r then [CHR ''_'', r] else [unicode_ToUpper r]) cs))"
proof (intro conjI impI)
  show "camelToSnake [] = []"
    by (simp add: camelToSnake_def camel_parts_def strings_ToUpper_def)
next
  obtain parts' start' where r: "camel_scan (c # cs) (Suc 0) cs [] 0 = (parts', start')"
    by (cases "camel_scan (c # cs) (Suc 0) cs [] 0") auto
  from camel_scan_inv [OF r, of "[c]"]
  have "concat (map (\<lambda>q. strings_ToUpper q @ ''_'') parts') @ strings_ToUpper (drop start' (c # cs))
        = strings_ToUpper (slice (c # cs) 0 (Suc 0)) @
          concat (map (\<lambda>r. if unicode_IsUpper r then [CHR ''_'', r] else [unicode_ToUpper r]) cs)"
    by simp
  then show "camelToSnake (c # cs) =
     unicode_ToUpper c #
     concat (map (\<lambda>r. if unicode_IsUpper r then [CHR ''_'', r] else [unicode_ToUpper r]) cs)"
    using r
    by (simp add: camelToSnake_def camel_parts_def strings_Join_snoc comp_def slice_def
        strings_ToUpper_def)
qed

theorem camelToSnake_every_upper_witness:
  "ascii ''myDBPort'' \<and> camelToSnake ''myDBPort'' = ''MY_D_B_PORT''
   \<and> ascii ''PascalCase'' \<and> camelToSnake ''PascalCase'' = ''PASCAL_CASE''
   \<and> ascii ''snake_case'' \<and> camelToSnake ''snake_case'' = ''SNAKE_CASE''"
proof -
  have a: "ascii ''myDBPort''" and b: "ascii ''PascalCase''" and c: "ascii ''snake_case''"
    by code_simp+
  have a': "unicode_ToUpper (CHR ''m'') #
           concat (map (\<lambda>r. if unicode_IsUpper r then [CHR ''_'', r] else [unicode_ToUpper r]) ''yDBPort'')
           = ''MY_D_B_PORT''"
    by code_simp
  have b': "unicode_ToUpper (CHR ''P'') #
           concat (map (\<lambda>r. if unicode_IsUpper r then [CHR ''_'', r] else [unicode_ToUpper r]) ''ascalCase'')
           = ''PASCAL_CASE''"
    by code_simp
  have c': "unicode_ToUpper (CHR ''s'') #
           concat (map (\<lambda>r. if unicode_IsUpper r then [CHR ''_'', r] else [unicode_ToUpper r]) ''nake_case'')
           = ''SNAKE_CASE''"
    by code_simp
  note every = camelToSnake_every_upper [THEN conjunct2, THEN mp]
  show ?thesis
    using every [OF a] every [OF b] every [OF c] a b c
    by (simp only: a' b' c' simp_thms)
qed

text \<open>
  C6. In an invocation of \<open>parseTo\<close> with a non-empty prefix, when the fields \<open>pre\<close>
  before a leaf field \<open>f\<close> have been filled without error and the value resolved
  for \<open>f\<close> is empty, the walk stops there with "no value for field" naming \<open>f\<close>: the
  fields before keep what they were given, \<open>f\<close> and the fields after it are not
  touched. The value is empty in particular when the environment has neither the
  variable of the \<open>env\<close> tag nor the one of the derived name and the field has no
  \<open>default\<close> tag. The invocation for the enclosing struct returns that error at
  once.
\<close>

theorem parseTo_nested_missing_value:
  assumes "prefix \<noteq> []"
    and "length vpre = length pre"
    and "parseTo L env pre vpre prefix = (vpre', None)"
    and "Kind (Type f) \<noteq> reflect_Struct"
  shows "(getFieldValue env f (prefix @ Name f) = [] \<longrightarrow>
          parseTo L env (pre @ f # post) (vpre @ v # vpost) prefix =
            (vpre' @ v # vpost, Some (NoValueForField (Name f)))) \<and>
         (os_LookupEnv env (Tag_Get (Tag f) tagEnv) = None \<and>
          os_LookupEnv env (camelToSnake (prefix @ Name f)) = None \<and>
          map_of (Tag f) tagDefault = None \<longrightarrow>
          parseTo L env (pre @ f # post) (vpre @ v # vpost) prefix =
            (vpre' @ v # vpost, Some (NoValueForField (Name f)))) \<and>
         (parseTo L env (pre @ f # post) (vpre @ v # vpost) prefix = (vals', Some err) \<and>
          prefix = outer @ name \<longrightarrow>
          parseTo L env (StructField name tag (StructOf tname (pre @ f # post)) # flds)
            (StructV (vpre @ v # vpost) # vals) outer = (StructV vals' # vals, Some err))"
proof -
  have step: "parseTo L env (pre @ f # post) (vpre @ v # vpost) prefix =
          (vpre' @ v # vpost, Some (NoValueForField (Name f)))"
    if "getFieldValue env f (prefix @ Name f) = []"
    using that assms by (simp add: parseTo_append parseTo_leaf)
  show ?thesis
    using step getFieldValue_absent [of env f "prefix @ Name f"]
    by (auto simp: parseTo_struct)
qed

theorem parseTo_nested_missing_value_witness:
  "parseTo declib [''HOME'' \<mapsto> ''/home/test'', ''EMPTY'' \<mapsto> ''10''] config config_zero [] =
     ([StringV ''/home/test'', StringV ''default'', IntV 10, StructV [StringV []]],
      Some (NoValueForField ''Value''))"
proof -
  let ?env = "[''HOME'' \<mapsto> ''/home/test'', ''EMPTY'' \<mapsto> ''10'']"
  let ?f = "StructField ''Value'' [] string_type"
  let ?nested = "StructField ''Nested'' [] (StructOf [] [?f])"
  let ?pre = "[StructField ''Home'' [(''env'', ''HOME'')] string_type,
               StructField ''Default'' [(''default'', ''default'')] string_type,
               StructField ''Empty'' [] (Basic reflect_Int [] ''int'')]"
  have name: "camelToSnake ''NestedValue'' = ''NESTED_VALUE''"
    by code_simp
  have leaf: "Kind (Type ?f) \<noteq> reflect_Struct"
    by (simp add: string_type_def)
  have absent: "os_LookupEnv ?env (Tag_Get (Tag ?f) tagEnv) = None \<and>
                os_LookupEnv ?env (camelToSnake (''Nested'' @ Name ?f)) = None \<and>
                map_of (Tag ?f) tagDefault = None"
    by (simp add: os_LookupEnv_def Tag_Get_def name)
  note inst = parseTo_nested_missing_value [where prefix = "''Nested''" and pre = "[]"
      and vpre = "[]" and vpre' = "[]" and f = ?f and L = declib and env = ?env and post = "[]"
      and v = "StringV []" and vpost = "[]" and name = "''Nested''" and tag = "[]"
      and tname = "[]" and flds = "[]" and vals = "[]" and outer = "[]"
      and vals' = "[StringV []]" and err = "NoValueForField ''Value''", OF _ _ _ leaf]
  have inner: "parseTo declib ?env [?f] [StringV []] ''Nested'' =
                 ([StringV []], Some (NoValueForField ''Value''))"
    using inst absent by simp
  have outer: "parseTo declib ?env [?nested] [StructV [StringV []]] [] =
                 ([StructV [StringV []]], Some (NoValueForField ''Value''))"
    using inst inner by simp
  have pre: "parseTo declib ?env ?pre [StringV [], StringV [], IntV 0] [] =
               ([StringV ''/home/test'', StringV ''default'', IntV 10], None)"
    by code_simp
  have "parseTo declib ?env (?pre @ [?nested]) ([StringV [], StringV [], IntV 0] @ [StructV [StringV []]]) [] =
          ([StringV ''/home/test'', StringV ''default'', IntV 10] @
             fst (parseTo declib ?env [?nested] [StructV [StringV []]] []),
           snd (parseTo declib ?env [?nested] [StructV [StringV []]] []))"
    by (rule parseTo_append [OF _ pre]) simp
  then show ?thesis
    unfolding outer by (simp add: config_def config_zero_def)
qed

text \<open>
  C7. When the first \<open>=\<close> of a line is at a non-zero position, \<open>parseLine\<close> returns
  what is before it as the key and all that follows it, further \<open>=\<close> included, as
  the value; a line without \<open>=\<close>, or with \<open>=\<close> first, gives two empty strings.
\<close>

theorem parseLine_first_equals:
  "(k \<noteq> [] \<and> CHR ''='' \<notin> set k \<longrightarrow> parseLine (k @ CHR ''='' # v) = (k, v)) \<and>
   (CHR ''='' \<notin> set line \<longrightarrow> parseLine line = ([], [])) \<and>
   parseLine (CHR ''='' # rest) = ([], [])"
proof (intro conjI impI)
  assume k: "k \<noteq> [] \<and> CHR ''='' \<notin> set k"
  then have "strings_Index (k @ CHR ''='' # v) ''='' = int (length k)"
    by (simp add: strings_Index_first)
  moreover from k have "0 < length k" by simp
  moreover have "nat (int (length k) + 1) = Suc (length k)" by simp
  ultimately show "parseLine (k @ CHR ''='' # v) = (k, v)"
    by (simp add: parseLine_def)
next
  assume "CHR ''='' \<notin> set line"
  then show "parseLine line = ([], [])"
    by (simp add: parseLine_def strings_Index_absent)
next
  show "parseLine (CHR ''='' # rest) = ([], [])"
    by (simp add: parseLine_def)
qed

theorem parseLine_first_equals_witness:
  "parseLine ''KEY=a=b'' = (''KEY'', ''a=b'') \<and> parseLine ''EMPTY_KEY='' = (''EMPTY_KEY'', [])
   \<and> parseLine ''NO_EQUAL_SIGN'' = ([], []) \<and> parseLine ''=EMPTY_VALUE'' = ([], [])"
  using parseLine_first_equals [where k = "''KEY''" and v = "''a=b''" and line = "''NO_EQUAL_SIGN''"
      and rest = "''EMPTY_VALUE''"]
    parseLine_first_equals [where k = "''EMPTY_KEY''" and v = "[]" and line = "[]" and rest = "[]"]
  by simp

text \<open>
  C8. When the converter fails on a leaf field \<open>f\<close> after the fields \<open>pre\<close> before it
  have been filled without error, \<open>parseTo\<close> returns the converter's error at once:
  the fields before hold the values assigned to them, \<open>f\<close> and the fields after it
  hold what they held before the call. When the walk of a nested struct fails,
  the enclosing walk returns that error at once in the same way, the nested
  struct holding what its own walk left. Each field is visited at most once.
\<close>

theorem parseTo_conversion_failure:
  assumes "length vpre = length pre"
    and "parseTo L env pre vpre prefix = (vpre', None)"
  shows "(Kind (Type f) \<noteq> reflect_Struct \<and>
          (getFieldValue env f (prefix @ Name f) \<noteq> [] \<or> prefix = []) \<and>
          setFieldValue L (Type f) v (getFieldValue env f (prefix @ Name f)) = Inl err
          \<longrightarrow> parseTo L env (pre @ f # post) (vpre @ v # vpost) prefix =
                (vpre' @ v # vpost, Some err)) \<and>
         (parseTo L env sub subvals (prefix @ name) = (subvals', Some err)
          \<longrightarrow> parseTo L env (pre @ StructField name tag (StructOf tname sub) # post)
                  (vpre @ StructV subvals # vpost) prefix =
                (vpre' @ StructV subvals' # vpost, Some err))"
  using assms by (auto simp: parseTo_append parseTo_leaf parseTo_struct)

theorem parseTo_conversion_failure_witness:
  "parseTo declib [''HOME'' \<mapsto> ''/home/test'', ''DEFAULT'' \<mapsto> ''default'', ''EMPTY'' \<mapsto> ''invalid'']
     config config_zero [] =
     ([StringV ''/home/test'', StringV ''default'', IntV 0, StructV [StringV []]],
      Some (ParsingInteger ErrSyntax))"
proof -
  let ?env = "[''HOME'' \<mapsto> ''/home/test'', ''DEFAULT'' \<mapsto> ''default'', ''EMPTY'' \<mapsto> ''invalid'']"
  let ?pre = "[StructField ''Home'' [(''env'', ''HOME'')] string_type,
               StructField ''Default'' [(''default'', ''default'')] string_type]"
  let ?f = "StructField ''Empty'' [] (Basic reflect_Int [] ''int'')"
  let ?post = "[StructField ''Nested'' [] (StructOf [] [StructField ''Value'' [] string_type])]"
  have len: "length [StringV [], StringV [] :: real gvalue] = length ?pre"
    by simp
  have pre: "parseTo declib ?env ?pre [StringV [], StringV []] [] =
             ([StringV ''/home/test'', StringV ''default''], None)"
    by code_simp
  have val: "getFieldValue ?env ?f ([] @ Name ?f) = ''invalid''"
    by code_simp
  have conv: "setFieldValue declib (Type ?f) (IntV 0) (getFieldValue ?env ?f ([] @ Name ?f)) =
              Inl (ParsingInteger ErrSyntax)"
    unfolding val by code_simp
  have "parseTo declib ?env (?pre @ ?f # ?post)
          ([StringV [], StringV []] @ IntV 0 # [StructV [StringV []]]) [] =
        ([StringV ''/home/test'', StringV ''default''] @ IntV 0 # [StructV [StringV []]],
         Some (ParsingInteger ErrSyntax))"
    using parseTo_conversion_failure [where f = ?f and err = "ParsingInteger ErrSyntax"
        and post = ?post and v = "IntV 0" and vpost = "[StructV [StringV []]]",
        OF len pre, THEN conjunct1] conv
    by simp
  then show ?thesis
    by (simp add: config_def config_zero_def)
qed

text \<open>
  C9. Loading a file a second time, from the environment the first load left,
  gives the same environment and the same outcome as the first load.
\<close>

theorem Load_idempotent:
  "Load fs (fst (Load fs env pth)) pth = Load fs env pth"
proof (cases "fs pth")
  case (Inl e)
  then show ?thesis by (simp add: Load_unfold)
next
  case (Inr f)
  then have "fst (Load fs env pth) = fst (Load_scan env (Lines f))"
    by (simp add: fst_Load)
  then show ?thesis
    using Inr by (simp add: Load_unfold Load_scan_twice)
qed

theorem Load_idempotent_witness:
  "Load (dotenv [''A=1'', ''B=2'', ''A=3'']) (fst (Load (dotenv [''A=1'', ''B=2'', ''A=3'']) [''C'' \<mapsto> ''0''] ''.env'')) ''.env''
     = ([''C'' \<mapsto> ''0'', ''A'' \<mapsto> ''3'', ''B'' \<mapsto> ''2''], None)"
proof -
  have "Load (dotenv [''A=1'', ''B=2'', ''A=3'']) [''C'' \<mapsto> ''0''] ''.env''
        = ([''C'' \<mapsto> ''0'', ''A'' \<mapsto> ''3'', ''B'' \<mapsto> ''2''], None)"
    by (simp add: Load_def Load_read_def os_Open_def bufio_Scan_def parseLine_def os_Setenv_def errors_Is_def
        dotenv_def fun_upd_twist)
  with Load_idempotent [of "dotenv [''A=1'', ''B=2'', ''A=3'']" "[''C'' \<mapsto> ''0'']" "''.env''"]
  show ?thesis by (simp only:)
qed

text \<open>
  C10. At the top level a leaf field whose resolved value is empty is handed to
  the converter (\<open>parseTo_top_level_empty\<close>): a string field is set to the empty
  string, and a field of another scalar type should fail with the parse error of
  its type. A field of type \<open>int64\<close> fails with the error of a duration instead,
  by the dispatch on kinds that C1 describes.
\<close>

theorem parseTo_top_level_empty_int64:
  assumes "Kind ty = reflect_Int64"
    and "getFieldValue env (StructField name tag ty) name = []"
    and "ParseDuration L [] = Inl e"
  shows "parseTo L env (StructField name tag ty # flds) (v # vals) [] =
           (v # vals, Some (ParsingDuration e))"
  using assms by (simp add: setFieldValue_def time_Duration_def)

theorem parseTo_top_level_empty_int64_witness:
  "parseTo declib Map.empty [StructField ''Count'' [] (Basic reflect_Int64 [] ''int64'')] [IntV 0] [] =
     ([IntV 0], Some (ParsingDuration InvalidDuration))"
proof -
  have a: "getFieldValue Map.empty (StructField ''Count'' [] (Basic reflect_Int64 [] ''int64'')) ''Count'' = []"
    by code_simp
  have b: "ParseDuration declib [] = Inl InvalidDuration"
    by code_simp
  show ?thesis
    by (rule parseTo_top_level_empty_int64 [OF _ a b]) simp
qed

end
